theory Spec2Isabelle
  imports Complex_Main "HOL-Library.Word" "HOL-Library.Multiset"
begin

unbundle bit_operations_syntax

section \<open>JavaScript values used by UpProxy.js\<close>

text \<open>
  The script is JavaScript, so its functions accept any value. The two kinds of value
  that reach \<open>ipToLong\<close> and \<open>isIpInCidr\<close> are strings and \<open>undefined\<close> (the second
  element of a destructured array that has only one element). A string is a list of
  code units; the model uses \<open>char\<close>, that is code units below 256.
  Calling a method on \<open>undefined\<close> throws a \<open>TypeError\<close>.
\<close>

datatype jsval = Undefined | Str string

datatype error = TypeError

text \<open>
  A Number is an IEEE double. Every Number the two functions compute is \<open>NaN\<close>, an
  infinity or an integer, so a finite Number is modelled by the integer it denotes
  (\<open>Num 0\<close> stands for both zeros, which none of the operators below tells apart).
\<close>

datatype jsnum = NaN | PosInf | NegInf | Num int

function bitLength :: "int \<Rightarrow> nat" where
  "bitLength n = (if n \<le> 0 then 0 else Suc (bitLength (n div 2)))"
  by pat_completeness auto
termination
  by (relation "measure nat") auto

text \<open>
  \<open>toNumber n\<close> is the Number nearest to the integer \<open>n\<close>: \<open>n\<close> itself below \<open>2 ^ 53\<close>,
  otherwise \<open>n\<close> rounded to 53 significant bits, ties to even, and an infinity from
  \<open>2 ^ 1024\<close> on.
\<close>

definition toNumber :: "int \<Rightarrow> jsnum" where
  "toNumber n =
     (let a = \<bar>n\<bar> in
      if a < 2 ^ 53 then Num n
      else
        let e = bitLength a - 53;
            q = a div 2 ^ e;
            r = a mod 2 ^ e;
            h = 2 ^ (e - 1);
            q' = (if h < r \<or> (r = h \<and> odd q) then q + 1 else q);
            m = q' * 2 ^ e
        in if 2 ^ 1024 \<le> m then (if n < 0 then NegInf else PosInf)
           else Num (sgn n * m))"

text \<open>\<open>ToInt32\<close> and \<open>ToUint32\<close>: the low 32 bits; \<open>NaN\<close> and the infinities give 0.\<close>

fun toInt32 :: "jsnum \<Rightarrow> 32 word" where
  "toInt32 (Num n) = word_of_int n"
| "toInt32 _ = 0"

definition ofInt32 :: "32 word \<Rightarrow> jsnum" where
  "ofInt32 w = Num (sint w)"

definition ofUint32 :: "32 word \<Rightarrow> jsnum" where
  "ofUint32 w = Num (uint w)"

text \<open>The shift count of \<open><<\<close> and \<open>>>>\<close> is the right operand's low five bits.\<close>

definition shiftCount :: "jsnum \<Rightarrow> nat" where
  "shiftCount b = unat (toInt32 b AND 31)"

definition js_shl :: "jsnum \<Rightarrow> jsnum \<Rightarrow> jsnum" where
  "js_shl a b = ofInt32 (push_bit (shiftCount b) (toInt32 a))"

definition js_ushr :: "jsnum \<Rightarrow> jsnum \<Rightarrow> jsnum" where
  "js_ushr a b = ofUint32 (drop_bit (shiftCount b) (toInt32 a))"

definition js_not :: "jsnum \<Rightarrow> jsnum" where
  "js_not a = ofInt32 (NOT (toInt32 a))"

definition js_and :: "jsnum \<Rightarrow> jsnum \<Rightarrow> jsnum" where
  "js_and a b = ofInt32 (toInt32 a AND toInt32 b)"

fun js_neg :: "jsnum \<Rightarrow> jsnum" where
  "js_neg NaN = NaN"
| "js_neg PosInf = NegInf"
| "js_neg NegInf = PosInf"
| "js_neg (Num n) = Num (- n)"

fun js_add :: "jsnum \<Rightarrow> jsnum \<Rightarrow> jsnum" where
  "js_add NaN _ = NaN"
| "js_add _ NaN = NaN"
| "js_add PosInf NegInf = NaN"
| "js_add NegInf PosInf = NaN"
| "js_add PosInf _ = PosInf"
| "js_add NegInf _ = NegInf"
| "js_add _ PosInf = PosInf"
| "js_add _ NegInf = NegInf"
| "js_add (Num a) (Num b) = toNumber (a + b)"

definition js_sub :: "jsnum \<Rightarrow> jsnum \<Rightarrow> jsnum" where
  "js_sub a b = js_add a (js_neg b)"

text \<open>Strict equality \<open>===\<close> on Numbers: \<open>NaN\<close> equals nothing.\<close>

definition js_strict_eq :: "jsnum \<Rightarrow> jsnum \<Rightarrow> bool" where
  "js_strict_eq a b = (a \<noteq> NaN \<and> a = b)"

subsection \<open>Strings\<close>

text \<open>
  White space and line terminators among the code units below 256: TAB, LF, VT, FF, CR,
  SP and NBSP. \<open>String.prototype.trim\<close> and \<open>parseInt\<close> skip the same set.
\<close>

definition isWhiteSpace :: "char \<Rightarrow> bool" where
  "isWhiteSpace c =
     (let n = (of_char c :: nat) in (9 \<le> n \<and> n \<le> 13) \<or> n = 32 \<or> n = 160)"

definition isDigit :: "char \<Rightarrow> bool" where
  "isDigit c = (let n = (of_char c :: nat) in 48 \<le> n \<and> n \<le> 57)"

definition digitValue :: "char \<Rightarrow> int" where
  "digitValue c = int (of_char c) - 48"

definition trim :: "string \<Rightarrow> string" where
  "trim s = rev (dropWhile isWhiteSpace (rev (dropWhile isWhiteSpace s)))"

text \<open>
  \<open>s.split(c)\<close> for a one-character separator: the pieces between the occurrences of
  \<open>c\<close>; never empty, \<open>''''.split(c)\<close> is \<open>['''']\<close>.
\<close>

fun js_split :: "char \<Rightarrow> string \<Rightarrow> string list" where
  "js_split c [] = [[]]"
| "js_split c (x # xs) =
     (if x = c then [] # js_split c xs
      else (case js_split c xs of
              [] \<Rightarrow> [[x]]
            | y # ys \<Rightarrow> (x # y) # ys))"

text \<open>Reading index \<open>i\<close> of an array of strings: \<open>undefined\<close> past the end.\<close>

definition element :: "string list \<Rightarrow> nat \<Rightarrow> jsval" where
  "element xs i = (if i < length xs then Str (xs ! i) else Undefined)"

fun toString :: "jsval \<Rightarrow> string" where
  "toString Undefined = ''undefined''"
| "toString (Str s) = s"

text \<open>
  \<open>parseInt(v, 10)\<close>: convert to a string, skip leading white space, take an optional
  sign, then the longest run of decimal digits; \<open>NaN\<close> when that run is empty, else the
  Number of the signed value. (Beyond 20 significant digits an engine may replace the
  remaining digits by zeros before rounding; the model rounds the exact value.)
\<close>

definition digitsValue :: "string \<Rightarrow> int" where
  "digitsValue ds = foldl (\<lambda>acc c. 10 * acc + digitValue c) 0 ds"

definition parseInt :: "jsval \<Rightarrow> jsnum" where
  "parseInt v =
     (let s = dropWhile isWhiteSpace (toString v);
          negative = (s \<noteq> [] \<and> hd s = CHR ''-'');
          s' = (if s \<noteq> [] \<and> (hd s = CHR ''+'' \<or> hd s = CHR ''-'') then tl s else s);
          z = takeWhile isDigit s'
      in if z = [] then NaN
         else toNumber ((if negative then - 1 else 1) * digitsValue z))"

section \<open>The membership test\<close>

text \<open>
  \<^verbatim>\<open>ipString.split('.').reduce((res, octet) => (res << 8) + parseInt(octet, 10), 0) >>> 0\<close>
\<close>

definition ipToLong :: "jsval \<Rightarrow> error + jsnum" where
  "ipToLong ipString =
     (case ipString of
        Undefined \<Rightarrow> Inl TypeError
      | Str s \<Rightarrow>
          Inr (js_ushr
                 (foldl (\<lambda>res octet. js_add (js_shl res (Num 8)) (parseInt (Str octet)))
                    (Num 0) (js_split CHR ''.'' s))
                 (Num 0)))"

text \<open>\<^verbatim>\<open>~((1 << (32 - parseInt(bits, 10))) - 1) >>> 0\<close>\<close>

definition cidrMask :: "jsval \<Rightarrow> jsnum" where
  "cidrMask bits =
     js_ushr
       (js_not (js_sub (js_shl (Num 1) (js_sub (Num 32) (parseInt bits))) (Num 1)))
       (Num 0)"

definition isIpInCidr :: "jsval \<Rightarrow> jsval \<Rightarrow> error + bool" where
  "isIpInCidr ip cidr =
     (case cidr of
        Undefined \<Rightarrow> Inl TypeError
      | Str c \<Rightarrow>
          (let parts = js_split CHR ''/'' c;
               range = element parts 0;
               bits = element parts 1;
               mask = cidrMask bits
           in case ipToLong ip of
                Inl e \<Rightarrow> Inl e
              | Inr ipLong \<Rightarrow>
                  (case ipToLong range of
                     Inl e \<Rightarrow> Inl e
                   | Inr rangeLong \<Rightarrow>
                       Inr (js_strict_eq (js_and ipLong mask) (js_and rangeLong mask)))))"

section \<open>The filter\<close>

definition bannedCidrs :: "jsval list" where
  "bannedCidrs = map Str
     [''101.x.x.x/15'',
      ''141.101.64.0/18'',
      ''172.64.0.0/13'',
      ''162.158.0.0/15'',
      ''104.16.0.0/13'',
      ''104.24.0.0/14'',
      ''173.245.48.0/20'',
      ''103.21.244.0/22'',
      ''103.22.200.0/22'',
      ''103.31.4.0/22'',
      ''188.114.96.0/20'',
      ''190.93.240.0/20'',
      ''197.234.240.0/22'',
      ''198.41.128.0/17'',
      ''131.0.72.0/22'']"

text \<open>
  The callback of \<open>Array.prototype.filter\<close> loops over the ranges and returns from one of
  three places: \<open>return false\<close> after a match, \<open>return false\<close> in the \<open>catch\<close> block, and
  \<open>return true\<close> after the loop. \<open>checkIp\<close> is that loop and says which return was taken;
  \<open>keepIp\<close> is the boolean the callback returns.
\<close>

datatype verdict = Keep | DropMatch | DropError

fun checkIp :: "jsval \<Rightarrow> jsval list \<Rightarrow> verdict" where
  "checkIp ip [] = Keep"
| "checkIp ip (cidr # rest) =
     (case isIpInCidr ip cidr of
        Inl cidrError \<Rightarrow> DropError
      | Inr True \<Rightarrow> DropMatch
      | Inr False \<Rightarrow> checkIp ip rest)"

definition keepIp :: "jsval \<Rightarrow> bool" where
  "keepIp ip = (checkIp ip bannedCidrs = Keep)"

definition filterIps :: "jsval list \<Rightarrow> jsval list" where
  "filterIps ips = filter keepIp ips"

section \<open>The collector\<close>

text \<open>
  An entry of the working directory: its name and, when \<open>readFileSync\<close> succeeds on it,
  its text.
\<close>

record dirent =
  fileName :: string
  fileContent :: "string option"

definition endsWith :: "string \<Rightarrow> string \<Rightarrow> bool" where
  "endsWith s suffix =
     (length suffix \<le> length s \<and> drop (length s - length suffix) s = suffix)"

definition consHead :: "char \<Rightarrow> string list \<Rightarrow> string list" where
  "consHead x r = (case r of [] \<Rightarrow> [[x]] | l # ls \<Rightarrow> (x # l) # ls)"

text \<open>\<open>content.split(/\r?\n/)\<close>: a line ends at LF or at CR LF; a lone CR stays in its line.\<close>

fun splitLines :: "string \<Rightarrow> string list" where
  "splitLines [] = [[]]"
| "splitLines [x] = (if x = CHR 0x0A then [[], []] else [[x]])"
| "splitLines (x # y # xs) =
     (if x = CHR 0x0A then [] # splitLines (y # xs)
      else if x = CHR 0x0D \<and> y = CHR 0x0A then [] # splitLines xs
      else consHead x (splitLines (y # xs)))"

text \<open>
  A JavaScript \<open>Set\<close> of strings keeps its elements in insertion order and ignores the
  insertion of an element it already has: a list without duplicates.
\<close>

definition setAdd :: "string list \<Rightarrow> string \<Rightarrow> string list" where
  "setAdd ipSet ip = (if ip \<in> set ipSet then ipSet else ipSet @ [ip])"

definition addLines :: "string list \<Rightarrow> string \<Rightarrow> string list" where
  "addLines ipSet content =
     foldl (\<lambda>acc line. let ip = trim line in if ip \<noteq> [] then setAdd acc ip else acc)
       ipSet (splitLines content)"

text \<open>
  The callback of \<open>allFiles.forEach\<close>: only names ending in \<open>.txt\<close> are read, and a
  file that cannot be read is skipped with a warning.
\<close>

definition readFile :: "string list \<Rightarrow> dirent \<Rightarrow> string list" where
  "readFile ipSet f =
     (if endsWith (fileName f) ''.txt''
      then (case fileContent f of
              None \<Rightarrow> ipSet
            | Some content \<Rightarrow> addLines ipSet content)
      else ipSet)"

definition collect :: "dirent list \<Rightarrow> string list" where
  "collect allFiles = foldl readFile [] allFiles"

text \<open>The lines of all the blobs the collector reads, in reading order.\<close>

definition blobs :: "dirent list \<Rightarrow> string list" where
  "blobs allFiles =
     concat (map (\<lambda>f. case fileContent f of None \<Rightarrow> [] | Some content \<Rightarrow> [content])
               (filter (\<lambda>f. endsWith (fileName f) ''.txt'') allFiles))"

definition inputLines :: "dirent list \<Rightarrow> string list" where
  "inputLines allFiles = concat (map splitLines (blobs allFiles))"

section \<open>The shuffle\<close>

text \<open>
  \<^verbatim>\<open>for (let i = a.length - 1; i > 0; i--) {
    const j = Math.floor(Math.random() * (i + 1));
    [a[i], a[j]] = [a[j], a[i]]; }\<close>
  \<open>draw i\<close> is the index \<open>j\<close> computed in the iteration for \<open>i\<close>. \<open>Math.random()\<close> lies in
  \<open>[0, 1)\<close>, so \<open>draw i \<le> i\<close>. The swap reads both elements, then writes \<open>a[i]\<close>, then
  \<open>a[j]\<close>. For the empty array \<open>a.length - 1\<close> is \<open>-1\<close> and the loop does not run; in the
  model the start index is then 0, and the loop does not run either.
\<close>

definition swap :: "nat \<Rightarrow> nat \<Rightarrow> 'a list \<Rightarrow> 'a list" where
  "swap i j a = (a[i := a ! j])[j := a ! i]"

fun shuffleFrom :: "(nat \<Rightarrow> nat) \<Rightarrow> nat \<Rightarrow> 'a list \<Rightarrow> 'a list" where
  "shuffleFrom draw 0 a = a"
| "shuffleFrom draw (Suc i) a = shuffleFrom draw i (swap (Suc i) (draw (Suc i)) a)"

definition shuffle :: "(nat \<Rightarrow> nat) \<Rightarrow> 'a list \<Rightarrow> 'a list" where
  "shuffle draw a = shuffleFrom draw (length a - 1) a"

section \<open>Publishing\<close>

text \<open>
  An environment variable is a string or \<open>undefined\<close>; \<open>!v\<close> holds for \<open>undefined\<close> and for
  the empty string.
\<close>

fun truthy :: "jsval \<Rightarrow> bool" where
  "truthy Undefined = False"
| "truthy (Str s) = (s \<noteq> [])"

function decimal :: "nat \<Rightarrow> string" where
  "decimal n =
     (if n < 10 then [char_of (48 + n)]
      else decimal (n div 10) @ [char_of (48 + n mod 10)])"
  by pat_completeness auto
termination
  by (relation "measure id") auto

text \<open>\<open>Array.prototype.join\<close>: an \<open>undefined\<close> element is written as the empty string.\<close>

fun js_join :: "jsval list \<Rightarrow> string \<Rightarrow> string" where
  "js_join [] sep = []"
| "js_join [x] sep = (case x of Undefined \<Rightarrow> [] | Str s \<Rightarrow> s)"
| "js_join (x # y # xs) sep =
     (case x of Undefined \<Rightarrow> [] | Str s \<Rightarrow> s) @ sep @ js_join (y # xs) sep"

text \<open>
  The body of the write request. \<open>sha\<close> is \<open>None\<close> when the object has no \<open>sha\<close> field.
  \<open>Base64 t\<close> stands for the base64 encoding of the text \<open>t\<close>.
\<close>

datatype encoded = Base64 string

record payload =
  message :: string
  content :: encoded
  sha :: "jsval option"

datatype request = HttpGet string | HttpPut string payload

text \<open>
  The outcome of \<open>axios.get(apiUrl)\<close>: \<open>Resolved v\<close> when the promise resolves, \<open>v\<close> being
  the value of \<open>response.data && response.data.sha\<close>; \<open>Rejected st\<close> when it rejects, \<open>st\<close>
  being \<open>error.response.status\<close> when the error carries a response.
\<close>

datatype lookup_result = Resolved jsval | Rejected "nat option"

text \<open>
  Everything the run reads from outside: the two environment variables, whether the
  download, the extraction, the local write and the remote write succeed, the entries
  of the working directory, the random indices, the clock and the answer of the
  revision lookup. The file written in step 6 is read back unchanged in step 8.
\<close>

record world =
  GITHUB_TOKEN :: jsval
  GITHUB_REPOSITORY :: jsval
  downloadOk :: bool
  extractOk :: bool
  dirEntries :: "dirent list"
  randomIndex :: "nat \<Rightarrow> nat"
  writeOk :: bool
  currentTime :: string
  shaLookup :: lookup_result
  putOk :: bool

definition downloadUrl :: string where
  "downloadUrl = ''https://zip.baipiao.eu.org/''"

definition commitMessage :: "string \<Rightarrow> string \<Rightarrow> nat \<Rightarrow> string" where
  "commitMessage repoPath time ipCount =
     ''Update '' @ repoPath @ '' - '' @ time @ '' (Total IPs: '' @ decimal ipCount @ '')''"

definition apiUrl :: "string \<Rightarrow> string \<Rightarrow> string" where
  "apiUrl repository repoPath =
     ''https://api.github.com/repos/'' @ repository @ ''/contents/'' @ repoPath"

text \<open>
  The variable \<open>existingFileSha\<close> after the \<open>try\<close>/\<open>catch\<close> around the lookup: it starts
  as the empty string and is assigned only when the lookup resolves with a truthy \<open>sha\<close>.
\<close>

definition existingFileSha :: "lookup_result \<Rightarrow> jsval" where
  "existingFileSha r =
     (case r of
        Resolved v \<Rightarrow> (if truthy v then v else Str [])
      | Rejected st \<Rightarrow> Str [])"

definition buildPayload :: "string \<Rightarrow> string \<Rightarrow> jsval \<Rightarrow> payload" where
  "buildPayload msg fileText existing =
     \<lparr>message = msg, content = Base64 fileText,
      sha = (if truthy existing then Some existing else None)\<rparr>"

text \<open>
  A run is described by the network requests it issues, in order, and its exit code.
  \<open>process.exit(1)\<close> ends the run at once. A request is recorded with its method, its
  URL and, for the write, its body; the headers are left out. Listing the working
  directory and creating the output directory are taken to succeed.
\<close>

definition uploadToGitHub :: "world \<Rightarrow> string \<Rightarrow> string \<Rightarrow> nat \<Rightarrow> request list \<times> nat" where
  "uploadToGitHub w fileText repoPath ipCount =
     (let msg = commitMessage repoPath (currentTime w) ipCount;
          githubToken = GITHUB_TOKEN w;
          repository = GITHUB_REPOSITORY w
      in if \<not> truthy githubToken \<or> \<not> truthy repository then ([], 1)
         else
           let url = apiUrl (toString repository) repoPath;
               existing = existingFileSha (shaLookup w);
               body = buildPayload msg fileText existing
           in ([HttpGet url, HttpPut url body], if putOk w then 0 else 1))"

definition main :: "world \<Rightarrow> request list \<times> nat" where
  "main w =
     (if \<not> downloadOk w then ([HttpGet downloadUrl], 1)
      else if \<not> extractOk w then ([HttpGet downloadUrl], 1)
      else
        let ipSet = collect (dirEntries w);
            filteredIps = shuffle (randomIndex w) (filterIps (map Str ipSet));
            fileText = js_join filteredIps [CHR 0x0A]
        in if \<not> writeOk w then ([HttpGet downloadUrl], 1)
           else
             let (requests, code) =
                   uploadToGitHub w fileText ''BestProxy/bestproxy.txt'' (length filteredIps)
             in (HttpGet downloadUrl # requests, code))"

section \<open>Notions of the specification\<close>

text \<open>A well-formed segment: a non-empty run of decimal digits with value at most 255.\<close>

definition wellFormedSegment :: "string \<Rightarrow> bool" where
  "wellFormedSegment s = (s \<noteq> [] \<and> list_all isDigit s \<and> digitsValue s \<le> 255)"

text \<open>The mask with the top \<open>p\<close> bits set and the low \<open>32 - p\<close> bits clear.\<close>

definition prefixMask :: "nat \<Rightarrow> 32 word" where
  "prefixMask p = NOT (mask (32 - p))"

text \<open>The run lacks its configuration when either variable is absent or empty.\<close>

definition configMissing :: "world \<Rightarrow> bool" where
  "configMissing w = (\<not> truthy (GITHUB_TOKEN w) \<or> \<not> truthy (GITHUB_REPOSITORY w))"

text \<open>
  A sample run for the concrete checks below: both variables set, every local step
  succeeding, the two input files of the specification's end-to-end scenario, and a
  lookup answered with 404.
\<close>

definition sampleWorld :: world where
  "sampleWorld =
     \<lparr>GITHUB_TOKEN = Str ''ghs_token'',
      GITHUB_REPOSITORY = Str ''junjun567567/IPDB'',
      downloadOk = True,
      extractOk = True,
      dirEntries =
        [\<lparr>fileName = ''a.txt'',
          fileContent = Some (''1.2.3.4'' @ [CHR 0x0A] @ ''8.8.8.8'' @ [CHR 0x0A] @ ''1.2.3.4'')\<rparr>,
         \<lparr>fileName = ''b.txt'', fileContent = Some ''104.16.0.1''\<rparr>],
      randomIndex = (\<lambda>i. 0),
      writeOk = True,
      currentTime = ''2024-01-01 08:00:00'',
      shaLookup = Rejected (Some 404),
      putOk = True\<rparr>"

text \<open>
  Sample directories for the collector: \<open>paddedFiles\<close> has padded lines, CR LF and LF
  endings, blank and white-space-only lines, a name that does not end in \<open>.txt\<close> and an
  unreadable file; \<open>regroupedFiles\<close> holds the same lines of text grouped differently;
  \<open>blankFiles\<close> holds only white space.
\<close>

definition paddedFiles :: "dirent list" where
  "paddedFiles =
     [\<lparr>fileName = ''a.txt'',
       fileContent = Some ('' 1.2.3.4 '' @ [CHR 0x0D, CHR 0x0A, CHR 0x0D, CHR 0x0A] @ ''8.8.8.8''
                           @ [CHR 0x0A, CHR 0x20, CHR 0x09, CHR 0x20, CHR 0x0A] @ ''1.2.3.4''
                           @ [CHR 0x0A])\<rparr>,
      \<lparr>fileName = ''notes.md'', fileContent = Some ''9.9.9.9''\<rparr>,
      \<lparr>fileName = ''locked.txt'', fileContent = None\<rparr>,
      \<lparr>fileName = ''b.txt'', fileContent = Some ([CHR 0x09] @ ''104.16.0.1'')\<rparr>]"

definition regroupedFiles :: "dirent list" where
  "regroupedFiles =
     [\<lparr>fileName = ''x.txt'',
       fileContent = Some ([CHR 0x09] @ ''104.16.0.1'' @ [CHR 0x0A, CHR 0x20, CHR 0x09, CHR 0x20, CHR 0x0A]
                           @ [CHR 0x0A] @ ''1.2.3.4'')\<rparr>,
      \<lparr>fileName = ''y.txt'',
       fileContent = Some (''8.8.8.8'' @ [CHR 0x0D, CHR 0x0A] @ '' 1.2.3.4 '' @ [CHR 0x0A])\<rparr>]"

definition blankFiles :: "dirent list" where
  "blankFiles =
     [\<lparr>fileName = ''e.txt'',
       fileContent = Some ([CHR 0x20, CHR 0x0D, CHR 0x0A, CHR 0x09, CHR 0xA0, CHR 0x0A])\<rparr>]"

section \<open>Properties of the membership test and the filter\<close>

lemma js_split_nonempty: "js_split c s \<noteq> []"
  by (induction s) (auto split: list.splits)

lemma ipToLong_Str: "\<exists>n. ipToLong (Str s) = Inr n"
  by (simp add: ipToLong_def)

lemma isIpInCidr_Str: "\<exists>b. isIpInCidr (Str ip) (Str cidr) = Inr b"
  by (simp add: isIpInCidr_def ipToLong_def element_def Let_def js_split_nonempty)

lemma checkIp_match:
  "cidr \<in> set cidrs \<Longrightarrow> isIpInCidr ip cidr = Inr True \<Longrightarrow> checkIp ip cidrs \<noteq> Keep"
  by (induction cidrs) (auto split: sum.splits bool.splits)

lemma checkIp_error:
  "list_all (\<lambda>c. isIpInCidr ip c = Inr False) pre \<Longrightarrow> isIpInCidr ip cidr = Inl e \<Longrightarrow>
   checkIp ip (pre @ cidr # post) = DropError"
  by (induction pre) auto

lemma checkIp_Str:
  "list_all (\<lambda>c. c \<noteq> Undefined) cidrs \<Longrightarrow> checkIp (Str ip) cidrs \<noteq> DropError"
proof (induction cidrs)
  case Nil
  then show ?case by simp
next
  case (Cons c cs)
  then obtain s where c: "c = Str s" by (cases c) auto
  obtain b where "isIpInCidr (Str ip) (Str s) = Inr b"
    using isIpInCidr_Str by blast
  with Cons c show ?case by (cases b) auto
qed

lemma bannedCidrs_strings: "list_all (\<lambda>c. c \<noteq> Undefined) bannedCidrs"
  by (simp add: bannedCidrs_def)

lemma isIpInCidr_alias:
  "ipToLong a = ipToLong b \<Longrightarrow> isIpInCidr a cidr = isIpInCidr b cidr"
  by (cases cidr) (simp_all add: isIpInCidr_def Let_def)

lemma checkIp_alias: "ipToLong a = ipToLong b \<Longrightarrow> checkIp a cidrs = checkIp b cidrs"
  by (induction cidrs)
    (simp_all add: isIpInCidr_alias [of a b] split: sum.splits bool.splits)

lemma js_add_NaN: "js_add a NaN = NaN"
  by (cases a) simp_all

lemma js_ushr_NaN: "js_ushr NaN (Num 0) = Num 0"
  by (simp add: js_ushr_def ofUint32_def shiftCount_def)

lemma ipToLong_last_NaN:
  assumes "parseInt (Str (last (js_split CHR ''.'' s))) = NaN"
  shows "ipToLong (Str s) = Inr (Num 0)"
proof -
  obtain segs seg where split: "js_split CHR ''.'' s = segs @ [seg]"
    using js_split_nonempty [of "CHR ''.''" s] by (metis rev_exhaust)
  with assms have "parseInt (Str seg) = NaN" by simp
  then show ?thesis
    by (simp add: ipToLong_def split js_add_NaN js_ushr_NaN)
qed

text \<open>
  C1 (zero-prefix edge case). The claim says that a range with prefix length 0 matches
  every well-formed address and that its mask is all zero bits. In the code the shift
  count of \<open>1 << 32\<close> is taken modulo 32, so the mask computed for prefix 0 is
  \<open>0xFFFFFFFF\<close>, all one bits, and \<open>isIpInCidr('1.2.3.4', '0.0.0.0/0')\<close> is \<open>false\<close>.
\<close>

theorem zero_prefix_mask_all_ones:
  "cidrMask (Str ''0'') = Num 4294967295 \<and>
   isIpInCidr (Str ''1.2.3.4'') (Str ''0.0.0.0/0'') = Inr False"
  by code_simp

text \<open>
  C3 (filter soundness). An address of the input that matches a range of \<open>bannedCidrs\<close>
  under the membership test does not occur in the filtered sequence.
\<close>

theorem filter_soundness:
  assumes "A \<in> set ips"
    and "R \<in> set bannedCidrs"
    and "isIpInCidr A R = Inr True"
  shows "A \<notin> set (filterIps ips)"
  using checkIp_match [OF assms(2,3)] by (simp add: filterIps_def keepIp_def)

theorem filter_soundness_witness:
  "Str ''103.21.245.10'' \<in> set [Str ''103.21.245.10'', Str ''103.21.248.1''] \<and>
   Str ''103.21.244.0/22'' \<in> set bannedCidrs \<and>
   isIpInCidr (Str ''103.21.245.10'') (Str ''103.21.244.0/22'') = Inr True \<and>
   Str ''103.21.245.10'' \<notin> set (filterIps [Str ''103.21.245.10'', Str ''103.21.248.1'']) \<and>
   filterIps [Str ''103.21.245.10'', Str ''103.21.248.1''] = [Str ''103.21.248.1'']"
proof -
  have h1: "Str ''103.21.245.10'' \<in> set [Str ''103.21.245.10'', Str ''103.21.248.1'']"
    by simp
  have h2: "Str ''103.21.244.0/22'' \<in> set bannedCidrs"
    by (simp add: bannedCidrs_def)
  have h3: "isIpInCidr (Str ''103.21.245.10'') (Str ''103.21.244.0/22'') = Inr True"
    by code_simp
  have kept: "filterIps [Str ''103.21.245.10'', Str ''103.21.248.1''] = [Str ''103.21.248.1'']"
    by code_simp
  show ?thesis
    using h1 h2 h3 kept filter_soundness [OF h1 h2 h3] by blast
qed


text \<open>
  C9 (filter idempotence). Filtering the output of the filter again returns that output
  unchanged: nothing is removed and the order is kept.
\<close>

theorem filter_idempotent: "filterIps (filterIps ips) = filterIps ips"
  by (simp add: filterIps_def)

subsection \<open>Arithmetic of the conversion\<close>

lemma toNumber_exact: "\<bar>n\<bar> < 2 ^ 53 \<Longrightarrow> toNumber n = Num n"
  by (simp add: toNumber_def)

lemma toInt32_ofInt32: "toInt32 (ofInt32 w) = w"
  by (simp add: ofInt32_def)

lemma toInt32_ofUint32: "toInt32 (ofUint32 w) = w"
  by (simp add: ofUint32_def)

lemma sint32_lower: "- 2147483648 \<le> sint (w :: 32 word)"
  using sint_ge [of w] by simp

lemma sint32_upper: "sint (w :: 32 word) < 2147483648"
  using sint_lt [of w] by simp

lemma shiftCount_small:
  assumes "0 \<le> k" and "k < 32"
  shows "shiftCount (Num k) = nat k"
proof -
  have m: "(31::int) = mask 5"
    by (simp add: mask_eq_exp_minus_1)
  have "uint ((word_of_int k :: 32 word) AND 31) = take_bit 32 k AND 31"
    by (simp add: unsigned_and_eq uint_word_of_int_eq)
  also have "\<dots> = k AND mask 5"
    using assms m by (simp add: take_bit_int_eq_self)
  also have "\<dots> = take_bit 5 k"
    by (simp add: take_bit_eq_mask)
  also have "\<dots> = k"
    using assms by (simp add: take_bit_int_eq_self)
  finally show ?thesis
    by (simp add: shiftCount_def unat_eq_nat_uint)
qed

lemma js_ushr_zero: "js_ushr x (Num 0) = ofUint32 (toInt32 x)"
  using shiftCount_small [of 0] by (simp add: js_ushr_def)

lemma js_shl_8: "js_shl x (Num 8) = ofInt32 (push_bit 8 (toInt32 x))"
  using shiftCount_small [of 8] by (simp add: js_shl_def)

lemma js_add_int32:
  assumes "\<bar>a\<bar> < 4503599627370496"
  shows "js_add (ofInt32 w) (Num a) = Num (sint w + a)"
proof -
  have "\<bar>sint w + a\<bar> < 9007199254740992"
    using sint32_lower [of w] sint32_upper [of w] assms by linarith
  then show ?thesis
    by (simp add: ofInt32_def toNumber_exact)
qed

lemma step_word:
  assumes "\<bar>a\<bar> < 4503599627370496"
  shows "toInt32 (js_add (js_shl res (Num 8)) (Num a)) = push_bit 8 (toInt32 res) + word_of_int a"
  by (simp add: js_shl_8 js_add_int32 [OF assms])

subsection \<open>Well-formed segments\<close>

lemma digit_not_space: "isDigit c \<Longrightarrow> \<not> isWhiteSpace c"
  by (auto simp: isDigit_def isWhiteSpace_def Let_def)

lemma digit_not_sign: "isDigit c \<Longrightarrow> c \<noteq> CHR ''+'' \<and> c \<noteq> CHR ''-''"
  by (auto simp: isDigit_def)

lemma digitValue_nonneg: "isDigit c \<Longrightarrow> 0 \<le> digitValue c"
  by (simp add: isDigit_def digitValue_def Let_def)

lemma foldl_digits_nonneg:
  "list_all isDigit ds \<Longrightarrow> 0 \<le> acc \<Longrightarrow>
   0 \<le> foldl (\<lambda>acc c. 10 * acc + digitValue c) acc ds"
  by (induction ds arbitrary: acc) (simp_all add: digitValue_nonneg)

lemma digitsValue_nonneg: "list_all isDigit ds \<Longrightarrow> 0 \<le> digitsValue ds"
  by (simp add: digitsValue_def foldl_digits_nonneg)

lemma parseInt_segment:
  assumes "wellFormedSegment s"
  shows "parseInt (Str s) = Num (digitsValue s)"
proof -
  from assms have ne: "s \<noteq> []" and digits: "list_all isDigit s"
    and le: "digitsValue s \<le> 255"
    by (simp_all add: wellFormedSegment_def)
  have c: "isDigit (hd s)"
    using ne digits by (cases s) simp_all
  have skip: "dropWhile isWhiteSpace s = s"
    using ne c by (cases s) (simp_all add: digit_not_space)
  have run: "takeWhile isDigit s = s"
    using digits by (simp add: list_all_iff)
  have "0 \<le> digitsValue s"
    using digits by (simp add: digitsValue_nonneg)
  with le have "toNumber (digitsValue s) = Num (digitsValue s)"
    by (intro toNumber_exact) simp
  then show ?thesis
    using digit_not_sign [OF c] ne
    by (simp add: parseInt_def skip run Let_def)
qed

lemma segment_range: "wellFormedSegment s \<Longrightarrow> 0 \<le> digitsValue s \<and> digitsValue s \<le> 255"
  by (simp add: wellFormedSegment_def digitsValue_nonneg)

lemma len32: "LENGTH(32) = 32"
  by simp

lemma pack_uint:
  assumes "0 \<le> a \<and> a \<le> 255" "0 \<le> b \<and> b \<le> 255" "0 \<le> c \<and> c \<le> 255" "0 \<le> d \<and> d \<le> 255"
  shows "uint (push_bit 8 (push_bit 8 (push_bit 8 (push_bit 8 0 + word_of_int a) + word_of_int b)
                  + word_of_int c) + word_of_int d :: 32 word)
         = a * 2 ^ 24 + b * 2 ^ 16 + c * 2 ^ 8 + d"
proof -
  let ?n = "a * 2 ^ 24 + b * 2 ^ 16 + c * 2 ^ 8 + d"
  have "push_bit 8 (push_bit 8 (push_bit 8 (push_bit 8 0 + word_of_int a) + word_of_int b)
          + word_of_int c) + word_of_int d = (word_of_int ?n :: 32 word)"
    by (simp add: push_bit_eq_mult algebra_simps)
  then have "uint (push_bit 8 (push_bit 8 (push_bit 8 (push_bit 8 0 + word_of_int a) + word_of_int b)
          + word_of_int c) + word_of_int d :: 32 word) = take_bit 32 ?n"
    by (simp only: uint_word_of_int_eq len32)
  moreover have "0 \<le> ?n" using assms by simp
  moreover have "?n < 2 ^ 32" using assms by simp
  ultimately show ?thesis
    by (simp only: take_bit_int_eq_self)
qed

lemma ipToLong_wellFormed:
  assumes "js_split CHR ''.'' A = [s1, s2, s3, s4]"
    and "list_all wellFormedSegment [s1, s2, s3, s4]"
  shows "ipToLong (Str A) =
         Inr (Num (digitsValue s1 * 2 ^ 24 + digitsValue s2 * 2 ^ 16 + digitsValue s3 * 2 ^ 8
                   + digitsValue s4))"
proof -
  have wf: "wellFormedSegment s1" "wellFormedSegment s2" "wellFormedSegment s3" "wellFormedSegment s4"
    using assms(2) by simp_all
  note r = wf [THEN segment_range]
  have small: "\<bar>digitsValue s1\<bar> < 4503599627370496" "\<bar>digitsValue s2\<bar> < 4503599627370496"
    "\<bar>digitsValue s3\<bar> < 4503599627370496" "\<bar>digitsValue s4\<bar> < 4503599627370496"
    using r by simp_all
  show ?thesis
    using pack_uint [OF r]
    by (simp add: ipToLong_def assms(1) wf [THEN parseInt_segment] js_ushr_zero
        step_word [OF small(1)] step_word [OF small(2)] step_word [OF small(3)]
        step_word [OF small(4)] ofUint32_def)
qed
subsection \<open>The mask and the comparison\<close>

lemma js_split_none: "c \<notin> set s \<Longrightarrow> js_split c s = [s]"
  by (induction s) auto

lemma js_split_first: "c \<notin> set xs \<Longrightarrow> js_split c (xs @ c # ys) = xs # js_split c ys"
  by (induction xs) auto

lemma cidrMask_prefix:
  assumes "parseInt bits = Num (int p)" and "1 \<le> p" and "p \<le> 32"
  shows "cidrMask bits = ofUint32 (prefixMask p)"
proof -
  have sub: "js_sub (Num 32) (Num (int p)) = Num (32 - int p)"
    using assms(3) by (simp add: js_sub_def toNumber_exact)
  have cnt: "shiftCount (Num (32 - int p)) = 32 - p"
    using assms(2,3) by (simp add: shiftCount_small)
  have shl: "js_shl (Num 1) (Num (32 - int p)) = ofInt32 (2 ^ (32 - p))"
    by (simp add: js_shl_def cnt)
  have "js_sub (ofInt32 (2 ^ (32 - p))) (Num 1) = Num (sint (2 ^ (32 - p) :: 32 word) - 1)"
    using js_add_int32 [of "- 1" "2 ^ (32 - p)"] by (simp add: js_sub_def)
  then have "toInt32 (js_sub (ofInt32 (2 ^ (32 - p))) (Num 1)) = mask (32 - p)"
    by (simp add: mask_eq_exp_minus_1)
  then show ?thesis
    by (simp add: cidrMask_def assms(1) sub shl js_not_def js_ushr_zero toInt32_ofInt32
        prefixMask_def)
qed

lemma prefixMask_bits: "bit (prefixMask p) n \<longleftrightarrow> 32 - p \<le> n \<and> n < 32"
  by (auto simp: prefixMask_def bit_simps)

lemma compare_masked:
  "js_strict_eq (js_and x m) (js_and y m) \<longleftrightarrow>
   toInt32 x AND toInt32 m = toInt32 y AND toInt32 m"
  by (auto simp: js_strict_eq_def js_and_def ofInt32_def intro: signed_word_eqI)

lemma isIpInCidr_prefix:
  assumes "CHR ''/'' \<notin> set B" and "CHR ''/'' \<notin> set bits"
    and "parseInt (Str bits) = Num (int p)" and "1 \<le> p" and "p \<le> 32"
    and "ipToLong (Str A) = Inr x" and "ipToLong (Str B) = Inr y"
  shows "isIpInCidr (Str A) (Str (B @ ''/'' @ bits)) =
         Inr (toInt32 x AND prefixMask p = toInt32 y AND prefixMask p)"
proof -
  have parts: "js_split CHR ''/'' (B @ CHR ''/'' # bits) = [B, bits]"
    using assms(1,2) by (simp add: js_split_first js_split_none)
  show ?thesis
    by (simp add: isIpInCidr_def parts element_def Let_def assms(6,7)
        cidrMask_prefix [OF assms(3,4,5)] compare_masked toInt32_ofUint32)
qed
text \<open>
  C4 (packing and masking rule). For an address of four well-formed segments
  \<open>a.b.c.d\<close>, \<open>ipToLong\<close> returns \<open>a * 2 ^ 24 + b * 2 ^ 16 + c * 2 ^ 8 + d\<close>. For a
  range \<open>B/p\<close> with \<open>1 \<le> p \<le> 32\<close>, \<open>isIpInCidr\<close> answers true exactly when the
  32-bit values of the address and of the base agree under the mask whose top \<open>p\<close>
  bits are set and whose low \<open>32 - p\<close> bits are clear.
\<close>

theorem ipToLong_packs_and_mask_rule:
  assumes "js_split CHR ''.'' A = [s1, s2, s3, s4]"
    and "list_all wellFormedSegment [s1, s2, s3, s4]"
    and "CHR ''/'' \<notin> set B" and "CHR ''/'' \<notin> set bits"
    and "parseInt (Str bits) = Num (int p)" and "1 \<le> p" and "p \<le> 32"
  shows "ipToLong (Str A) =
           Inr (Num (digitsValue s1 * 2 ^ 24 + digitsValue s2 * 2 ^ 16 + digitsValue s3 * 2 ^ 8
                     + digitsValue s4)) \<and>
         (\<exists>x y. ipToLong (Str A) = Inr x \<and> ipToLong (Str B) = Inr y \<and>
            isIpInCidr (Str A) (Str (B @ ''/'' @ bits)) =
              Inr (toInt32 x AND prefixMask p = toInt32 y AND prefixMask p)) \<and>
         (\<forall>n. bit (prefixMask p) n \<longleftrightarrow> 32 - p \<le> n \<and> n < 32)"
proof -
  obtain x where x: "ipToLong (Str A) = Inr x"
    using ipToLong_Str by blast
  obtain y where y: "ipToLong (Str B) = Inr y"
    using ipToLong_Str by blast
  show ?thesis
    using ipToLong_wellFormed [OF assms(1,2)] isIpInCidr_prefix [OF assms(3-7) x y] x y
      prefixMask_bits
    by blast
qed

theorem ipToLong_packs_and_mask_rule_witness:
  "js_split CHR ''.'' ''103.21.245.10'' = [''103'', ''21'', ''245'', ''10''] \<and>
   list_all wellFormedSegment [''103'', ''21'', ''245'', ''10''] \<and>
   CHR ''/'' \<notin> set ''103.21.244.0'' \<and> CHR ''/'' \<notin> set ''22'' \<and>
   parseInt (Str ''22'') = Num (int 22) \<and> (1::nat) \<le> 22 \<and> (22::nat) \<le> 32 \<and>
   ipToLong (Str ''103.21.245.10'') = Inr (Num 1729492234) \<and>
   (\<exists>x y. ipToLong (Str ''103.21.245.10'') = Inr x \<and> ipToLong (Str ''103.21.244.0'') = Inr y \<and>
      isIpInCidr (Str ''103.21.245.10'') (Str (''103.21.244.0'' @ ''/'' @ ''22'')) =
        Inr (toInt32 x AND prefixMask 22 = toInt32 y AND prefixMask 22))"
proof -
  have h1: "js_split CHR ''.'' ''103.21.245.10'' = [''103'', ''21'', ''245'', ''10'']"
    by code_simp
  have h2: "list_all wellFormedSegment [''103'', ''21'', ''245'', ''10'']"
    by code_simp
  have h3: "CHR ''/'' \<notin> set ''103.21.244.0''"
    by simp
  have h4: "CHR ''/'' \<notin> set ''22''"
    by simp
  have h5: "parseInt (Str ''22'') = Num (int 22)"
    by code_simp
  have h6: "(1::nat) \<le> 22" and h7: "(22::nat) \<le> 32"
    by simp_all
  have v: "digitsValue ''103'' * 2 ^ 24 + digitsValue ''21'' * 2 ^ 16 + digitsValue ''245'' * 2 ^ 8
           + digitsValue ''10'' = 1729492234"
    by code_simp
  show ?thesis
    using h1 h2 h3 h4 h5 h6 h7 ipToLong_packs_and_mask_rule [OF h1 h2 h3 h4 h5 h6 h7]
    unfolding v by blast
qed

subsection \<open>Segments of any size\<close>

lemma foldl_step_word:
  assumes "list_all2 (\<lambda>s a. parseInt (Str s) = Num a \<and> \<bar>a\<bar> < 4503599627370496) segs vals"
  shows "toInt32 (foldl (\<lambda>res octet. js_add (js_shl res (Num 8)) (parseInt (Str octet))) res segs)
         = foldl (\<lambda>w a. push_bit 8 w + word_of_int a) (toInt32 res) vals"
  using assms
proof (induction segs vals arbitrary: res rule: list_all2_induct)
  case Nil
  then show ?case by simp
next
  case (Cons s a segs vals)
  then show ?case
    by (simp add: step_word)
qed

lemma foldl_word_of_int:
  "foldl (\<lambda>w a. push_bit 8 w + word_of_int a) (word_of_int x :: 32 word) vals
   = word_of_int (foldl (\<lambda>acc a. acc * 256 + a) x vals)"
proof (induction vals arbitrary: x)
  case Nil
  then show ?case by simp
next
  case (Cons a vals)
  have "push_bit 8 (word_of_int x :: 32 word) + word_of_int a = word_of_int (x * 256 + a)"
    by (simp add: push_bit_eq_mult)
  then show ?case
    using Cons.IH [of "x * 256 + a"] by simp
qed

lemma ipToLong_carry:
  assumes "list_all2 (\<lambda>s a. parseInt (Str s) = Num a \<and> \<bar>a\<bar> < 4503599627370496)
             (js_split CHR ''.'' ip) vals"
  shows "ipToLong (Str ip) = Inr (Num (foldl (\<lambda>acc a. acc * 256 + a) 0 vals mod 2 ^ 32))"
proof -
  have "toInt32 (foldl (\<lambda>res octet. js_add (js_shl res (Num 8)) (parseInt (Str octet)))
                   (Num 0) (js_split CHR ''.'' ip))
        = word_of_int (foldl (\<lambda>acc a. acc * 256 + a) 0 vals)"
    using foldl_step_word [OF assms, of "Num 0"] foldl_word_of_int [of 0 vals] by simp
  then show ?thesis
    by (simp add: ipToLong_def js_ushr_zero ofUint32_def uint_word_of_int)
qed

lemma ipToLong_carry4:
  assumes "js_split CHR ''.'' ip = [s1, s2, s3, s4]"
    and "parseInt (Str s1) = Num a \<and> \<bar>a\<bar> < 4503599627370496"
    and "parseInt (Str s2) = Num b \<and> \<bar>b\<bar> < 4503599627370496"
    and "parseInt (Str s3) = Num c \<and> \<bar>c\<bar> < 4503599627370496"
    and "parseInt (Str s4) = Num d \<and> \<bar>d\<bar> < 4503599627370496"
  shows "ipToLong (Str ip) = Inr (Num ((a * 2 ^ 24 + b * 2 ^ 16 + c * 2 ^ 8 + d) mod 2 ^ 32))"
proof -
  have "list_all2 (\<lambda>s a. parseInt (Str s) = Num a \<and> \<bar>a\<bar> < 4503599627370496)
          (js_split CHR ''.'' ip) [a, b, c, d]"
    using assms by simp
  from ipToLong_carry [OF this] show ?thesis
    by (simp add: algebra_simps)
qed

text \<open>
  C10 (no conversion failure on strings). On strings \<open>ipToLong\<close> and \<open>isIpInCidr\<close> always
  return a value. A segment without digits parses to \<open>NaN\<close>, and \<open>NaN >>> 0\<close> is 0, so an
  address whose last segment has no digits converts to 0 (a \<open>NaN\<close> met earlier is turned
  into 0 by the next \<open><<\<close>, so \<open>1.x.3.4\<close> converts as \<open>3.4\<close> does, to 772). A segment
  above 255 carries into the higher bits: when every segment parses to a number, the
  result is the base-256 sum of the parsed values modulo \<open>2 ^ 32\<close>, so \<open>1.2.3.256\<close>
  converts as \<open>1.2.4.0\<close> does, to 16909312. Hence the callback never returns from its
  \<open>catch\<close> block for a string, and two strings that convert to the same integer get the
  same answer.
\<close>

theorem conversion_never_throws:
  "(\<forall>ip. \<exists>n. ipToLong (Str ip) = Inr n) \<and>
   (\<forall>ip cidr. \<exists>b. isIpInCidr (Str ip) (Str cidr) = Inr b) \<and>
   parseInt (Str ''x'') = NaN \<and> parseInt (Str []) = NaN \<and> parseInt Undefined = NaN \<and>
   js_ushr NaN (Num 0) = Num 0 \<and>
   (\<forall>ip. parseInt (Str (last (js_split CHR ''.'' ip))) = NaN \<longrightarrow>
      ipToLong (Str ip) = Inr (Num 0)) \<and>
   ipToLong (Str ''1.x.3.4'') = ipToLong (Str ''3.4'') \<and>
   ipToLong (Str ''1.2.3.256'') = ipToLong (Str ''1.2.4.0'') \<and>
   (\<forall>ip. checkIp (Str ip) bannedCidrs \<noteq> DropError) \<and>
   (\<forall>a b. ipToLong (Str a) = ipToLong (Str b) \<longrightarrow> keepIp (Str a) = keepIp (Str b)) \<and>
   ipToLong (Str ''1.x.3.4'') = Inr (Num 772) \<and>
   ipToLong (Str ''1.2.3.256'') = Inr (Num 16909312) \<and>
   ipToLong (Str ''1.2.4.0'') = Inr (Num 16909312) \<and>
   (\<forall>ip vals.
      list_all2 (\<lambda>s a. parseInt (Str s) = Num a \<and> \<bar>a\<bar> < 4503599627370496)
        (js_split CHR ''.'' ip) vals \<longrightarrow>
      ipToLong (Str ip) = Inr (Num (foldl (\<lambda>acc a. acc * 256 + a) 0 vals mod 2 ^ 32))) \<and>
   (\<forall>ip s1 s2 s3 s4 a b c d.
      js_split CHR ''.'' ip = [s1, s2, s3, s4] \<and>
      (parseInt (Str s1) = Num a \<and> \<bar>a\<bar> < 4503599627370496) \<and>
      (parseInt (Str s2) = Num b \<and> \<bar>b\<bar> < 4503599627370496) \<and>
      (parseInt (Str s3) = Num c \<and> \<bar>c\<bar> < 4503599627370496) \<and>
      (parseInt (Str s4) = Num d \<and> \<bar>d\<bar> < 4503599627370496) \<longrightarrow>
      ipToLong (Str ip) = Inr (Num ((a * 2 ^ 24 + b * 2 ^ 16 + c * 2 ^ 8 + d) mod 2 ^ 32)))"
proof -
  have nan: "parseInt (Str ''x'') = NaN" "parseInt (Str []) = NaN" "parseInt Undefined = NaN"
    by code_simp+
  have carry: "ipToLong (Str ''1.2.3.256'') = ipToLong (Str ''1.2.4.0'')"
    by code_simp
  have reset: "ipToLong (Str ''1.x.3.4'') = ipToLong (Str ''3.4'')"
    by code_simp
  have total: "\<forall>ip. \<exists>n. ipToLong (Str ip) = Inr n"
    "\<forall>ip cidr. \<exists>b. isIpInCidr (Str ip) (Str cidr) = Inr b"
    using ipToLong_Str isIpInCidr_Str by blast+
  have lastNaN: "\<forall>ip. parseInt (Str (last (js_split CHR ''.'' ip))) = NaN \<longrightarrow>
      ipToLong (Str ip) = Inr (Num 0)"
    using ipToLong_last_NaN by blast
  have unreachable: "\<forall>ip. checkIp (Str ip) bannedCidrs \<noteq> DropError"
    using checkIp_Str [OF bannedCidrs_strings] by blast
  have alike: "keepIp (Str a) = keepIp (Str b)" if "ipToLong (Str a) = ipToLong (Str b)" for a b
    using checkIp_alias [OF that] by (simp add: keepIp_def)
  have same: "\<forall>a b. ipToLong (Str a) = ipToLong (Str b) \<longrightarrow> keepIp (Str a) = keepIp (Str b)"
    using alike by blast
  have pinned: "ipToLong (Str ''1.x.3.4'') = Inr (Num 772)"
    "ipToLong (Str ''1.2.3.256'') = Inr (Num 16909312)"
    "ipToLong (Str ''1.2.4.0'') = Inr (Num 16909312)"
    by code_simp+
  have law: "\<forall>ip vals.
      list_all2 (\<lambda>s a. parseInt (Str s) = Num a \<and> \<bar>a\<bar> < 4503599627370496)
        (js_split CHR ''.'' ip) vals \<longrightarrow>
      ipToLong (Str ip) = Inr (Num (foldl (\<lambda>acc a. acc * 256 + a) 0 vals mod 2 ^ 32))"
    using ipToLong_carry by blast
  have law4: "\<forall>ip s1 s2 s3 s4 a b c d.
      js_split CHR ''.'' ip = [s1, s2, s3, s4] \<and>
      (parseInt (Str s1) = Num a \<and> \<bar>a\<bar> < 4503599627370496) \<and>
      (parseInt (Str s2) = Num b \<and> \<bar>b\<bar> < 4503599627370496) \<and>
      (parseInt (Str s3) = Num c \<and> \<bar>c\<bar> < 4503599627370496) \<and>
      (parseInt (Str s4) = Num d \<and> \<bar>d\<bar> < 4503599627370496) \<longrightarrow>
      ipToLong (Str ip) = Inr (Num ((a * 2 ^ 24 + b * 2 ^ 16 + c * 2 ^ 8 + d) mod 2 ^ 32))"
    using ipToLong_carry4 by blast
  show ?thesis
    by (intro conjI total nan js_ushr_NaN lastNaN reset carry unreachable same pinned law law4)
qed

theorem conversion_never_throws_witness:
  "parseInt (Str (last (js_split CHR ''.'' ''1.2.3.x''))) = NaN \<and>
   ipToLong (Str ''1.2.3.x'') = Inr (Num 0) \<and>
   checkIp (Str ''1.2.3.x'') bannedCidrs \<noteq> DropError \<and>
   ipToLong (Str ''1.2.3.256'') = ipToLong (Str ''1.2.4.0'') \<and>
   keepIp (Str ''1.2.3.256'') = keepIp (Str ''1.2.4.0'') \<and>
   js_split CHR ''.'' ''300.400.500.600'' = [''300'', ''400'', ''500'', ''600''] \<and>
   parseInt (Str ''300'') = Num 300 \<and> parseInt (Str ''400'') = Num 400 \<and>
   parseInt (Str ''500'') = Num 500 \<and> parseInt (Str ''600'') = Num 600 \<and>
   ipToLong (Str ''300.400.500.600'') = Inr (Num 764540504)"
proof -
  have h: "parseInt (Str (last (js_split CHR ''.'' ''1.2.3.x''))) = NaN"
    by code_simp
  have s: "js_split CHR ''.'' ''300.400.500.600'' = [''300'', ''400'', ''500'', ''600'']"
    by code_simp
  have p: "parseInt (Str ''300'') = Num 300 \<and> parseInt (Str ''400'') = Num 400 \<and>
           parseInt (Str ''500'') = Num 500 \<and> parseInt (Str ''600'') = Num 600"
    by code_simp
  have q: "\<bar>300 :: int\<bar> < 4503599627370496 \<and> \<bar>400 :: int\<bar> < 4503599627370496 \<and>
           \<bar>500 :: int\<bar> < 4503599627370496 \<and> \<bar>600 :: int\<bar> < 4503599627370496"
    by simp
  have "ipToLong (Str ''300.400.500.600'')
        = Inr (Num ((300 * 2 ^ 24 + 400 * 2 ^ 16 + 500 * 2 ^ 8 + 600) mod 2 ^ 32))"
    using conversion_never_throws s p q by blast
  then have big: "ipToLong (Str ''300.400.500.600'') = Inr (Num 764540504)"
    by simp
  show ?thesis
    using h s p big conversion_never_throws by blast
qed

section \<open>Properties of the collector\<close>

lemma set_setAdd: "set (setAdd ipSet ip) = insert ip (set ipSet)"
  by (auto simp: setAdd_def)

lemma distinct_setAdd: "distinct ipSet \<Longrightarrow> distinct (setAdd ipSet ip)"
  by (simp add: setAdd_def)

lemma set_foldl_lines:
  "set (foldl (\<lambda>acc line. let ip = trim line in if ip \<noteq> [] then setAdd acc ip else acc)
          ipSet ls)
   = set ipSet \<union> set (filter (\<lambda>ip. ip \<noteq> []) (map trim ls))"
  by (induction ls arbitrary: ipSet) (auto simp: Let_def set_setAdd)

lemma distinct_foldl_lines:
  "distinct ipSet \<Longrightarrow>
   distinct (foldl (\<lambda>acc line. let ip = trim line in if ip \<noteq> [] then setAdd acc ip else acc)
               ipSet ls)"
  by (induction ls arbitrary: ipSet) (simp_all add: Let_def distinct_setAdd)

lemma set_addLines:
  "set (addLines ipSet txt)
   = set ipSet \<union> set (filter (\<lambda>ip. ip \<noteq> []) (map trim (splitLines txt)))"
  by (simp add: addLines_def set_foldl_lines)

lemma distinct_addLines: "distinct ipSet \<Longrightarrow> distinct (addLines ipSet txt)"
  by (simp add: addLines_def distinct_foldl_lines)

lemma collect_foldl: "collect allFiles = foldl readFile [] allFiles"
  by (simp add: collect_def)

lemma readFile_skip:
  "\<not> endsWith (fileName f) ''.txt'' \<or> fileContent f = None \<Longrightarrow> readFile ipSet f = ipSet"
  by (auto simp: readFile_def)

lemma readFile_read:
  "endsWith (fileName f) ''.txt'' \<Longrightarrow> fileContent f = Some txt \<Longrightarrow>
   readFile ipSet f = addLines ipSet txt"
  by (simp add: readFile_def)

lemma inputLines_skip:
  "\<not> endsWith (fileName f) ''.txt'' \<or> fileContent f = None \<Longrightarrow>
   inputLines (f # fs) = inputLines fs"
  by (auto simp: inputLines_def blobs_def)

lemma inputLines_read:
  "endsWith (fileName f) ''.txt'' \<Longrightarrow> fileContent f = Some txt \<Longrightarrow>
   inputLines (f # fs) = splitLines txt @ inputLines fs"
  by (simp add: inputLines_def blobs_def)

lemma set_foldl_files:
  "set (foldl readFile ipSet fs)
   = set ipSet \<union> set (filter (\<lambda>ip. ip \<noteq> []) (map trim (inputLines fs)))"
proof (induction fs arbitrary: ipSet)
  case Nil
  then show ?case by (simp add: inputLines_def blobs_def)
next
  case (Cons f fs)
  show ?case
  proof (cases "endsWith (fileName f) ''.txt'' \<and> fileContent f \<noteq> None")
    case True
    then obtain t where rd: "endsWith (fileName f) ''.txt''" "fileContent f = Some t"
      by auto
    show ?thesis
      by (simp add: Cons.IH readFile_read [OF rd] inputLines_read [OF rd] set_addLines Un_assoc)
  next
    case False
    then have skip: "\<not> endsWith (fileName f) ''.txt'' \<or> fileContent f = None"
      by simp
    show ?thesis
      by (simp add: Cons.IH readFile_skip [OF skip] inputLines_skip [OF skip])
  qed
qed

lemma distinct_readFile: "distinct ipSet \<Longrightarrow> distinct (readFile ipSet f)"
proof (cases "endsWith (fileName f) ''.txt'' \<and> fileContent f \<noteq> None")
  case True
  assume d: "distinct ipSet"
  from True obtain t where rd: "endsWith (fileName f) ''.txt''" "fileContent f = Some t"
    by auto
  show ?thesis
    using d by (simp add: readFile_read [OF rd] distinct_addLines)
next
  case False
  assume d: "distinct ipSet"
  from False have skip: "\<not> endsWith (fileName f) ''.txt'' \<or> fileContent f = None"
    by simp
  show ?thesis
    using d by (simp add: readFile_skip [OF skip])
qed

lemma distinct_foldl_files: "distinct ipSet \<Longrightarrow> distinct (foldl readFile ipSet fs)"
  by (induction fs arbitrary: ipSet) (simp_all add: distinct_readFile)

lemma set_collect:
  "set (collect allFiles) = set (filter (\<lambda>ip. ip \<noteq> []) (map trim (inputLines allFiles)))"
  by (simp add: collect_foldl set_foldl_files)

lemma distinct_collect: "distinct (collect allFiles)"
  by (simp add: collect_foldl distinct_foldl_files)

subsection \<open>What trimming does\<close>

lemma trim_blank:
  assumes "list_all isWhiteSpace l"
  shows "trim l = []"
proof -
  have d: "dropWhile isWhiteSpace l = []"
    using assms by (simp add: list_all_iff)
  show ?thesis
    unfolding trim_def d by simp
qed

lemma trim_core:
  assumes "list_all isWhiteSpace pre" and "list_all isWhiteSpace post"
    and "t \<noteq> []" and "\<not> isWhiteSpace (hd t)" and "\<not> isWhiteSpace (last t)"
  shows "trim (pre @ t @ post) = t"
proof -
  have "dropWhile isWhiteSpace (pre @ t @ post) = dropWhile isWhiteSpace (t @ post)"
    by (rule dropWhile_append2) (use assms(1) in \<open>simp add: list_all_iff\<close>)
  also have "\<dots> = t @ post"
    using assms(3,4) by (cases t) simp_all
  finally have front: "dropWhile isWhiteSpace (pre @ t @ post) = t @ post" .
  have rear: "rev t \<noteq> [] \<and> \<not> isWhiteSpace (hd (rev t))"
    using assms(3,5) by (simp add: hd_rev)
  have "dropWhile isWhiteSpace (rev post @ rev t) = dropWhile isWhiteSpace (rev t)"
    by (rule dropWhile_append2) (use assms(2) in \<open>simp add: list_all_iff\<close>)
  also have "\<dots> = rev t"
    using rear by (cases "rev t") simp_all
  finally have "dropWhile isWhiteSpace (rev post @ rev t) = rev t" .
  then show ?thesis
    by (simp add: trim_def front)
qed

lemma trim_decomp:
  "\<exists>pre post. l = pre @ trim l @ post \<and> list_all isWhiteSpace pre \<and> list_all isWhiteSpace post"
proof -
  let ?d = "dropWhile isWhiteSpace l"
  let ?pre = "takeWhile isWhiteSpace l"
  let ?post = "rev (takeWhile isWhiteSpace (rev ?d))"
  have "rev (takeWhile isWhiteSpace (rev ?d) @ dropWhile isWhiteSpace (rev ?d)) = ?d"
    by (simp only: takeWhile_dropWhile_id rev_rev_ident)
  then have "rev (dropWhile isWhiteSpace (rev ?d)) @ ?post = ?d"
    by (simp only: rev_append)
  then have d: "?d = trim l @ ?post"
    by (simp add: trim_def)
  have "l = ?pre @ ?d"
    by simp
  with d have "l = ?pre @ trim l @ ?post"
    by simp
  moreover have "list_all isWhiteSpace ?pre"
    by (simp add: list_all_iff) (meson set_takeWhileD)
  moreover have "list_all isWhiteSpace ?post"
    by (simp add: list_all_iff) (meson set_takeWhileD)
  ultimately show ?thesis
    by blast
qed

lemma trim_edges:
  assumes "trim l \<noteq> []"
  shows "\<not> isWhiteSpace (hd (trim l)) \<and> \<not> isWhiteSpace (last (trim l))"
proof -
  let ?d = "dropWhile isWhiteSpace l"
  let ?e = "dropWhile isWhiteSpace (rev ?d)"
  have t: "trim l = rev ?e"
    by (simp add: trim_def)
  with assms have e: "?e \<noteq> []"
    by simp
  then have he: "\<not> isWhiteSpace (hd ?e)"
    by (rule hd_dropWhile)
  have d: "?d \<noteq> []"
  proof
    assume a: "?d = []"
    have "?e = []" unfolding a by simp
    with e show False by blast
  qed
  then have hd: "\<not> isWhiteSpace (hd ?d)"
    by (rule hd_dropWhile)
  have "rev ?d = takeWhile isWhiteSpace (rev ?d) @ ?e"
    by simp
  then have "last (rev ?d) = last ?e"
    using e by (metis last_appendR)
  then have "last ?e = hd ?d"
    using d by (simp add: last_rev)
  with he hd e show ?thesis
    by (simp add: t hd_rev last_rev)
qed

lemma collect_member:
  assumes "ip \<in> set (collect allFiles)"
  shows "\<not> isWhiteSpace (hd ip) \<and> \<not> isWhiteSpace (last ip) \<and>
         (\<exists>l pre post. l \<in> set (inputLines allFiles) \<and> l = pre @ ip @ post \<and>
            list_all isWhiteSpace pre \<and> list_all isWhiteSpace post)"
proof -
  from assms obtain l where l: "l \<in> set (inputLines allFiles)" "ip = trim l" "trim l \<noteq> []"
    by (auto simp: set_collect)
  from trim_decomp [of l] obtain pre post where
    "l = pre @ trim l @ post" "list_all isWhiteSpace pre" "list_all isWhiteSpace post"
    by blast
  with l trim_edges [OF l(3)] show ?thesis
    by blast
qed

lemma collect_core:
  assumes "pre @ t @ post \<in> set (inputLines allFiles)"
    and "list_all isWhiteSpace pre" and "list_all isWhiteSpace post"
    and "t \<noteq> []" and "\<not> isWhiteSpace (hd t)" and "\<not> isWhiteSpace (last t)"
  shows "t \<in> set (collect allFiles)"
proof -
  have "trim (pre @ t @ post) = t"
    using assms(2-6) by (rule trim_core)
  with assms(1,4) show ?thesis
    by (force simp: set_collect)
qed

lemma collect_blank:
  assumes "list_all (list_all isWhiteSpace) (inputLines allFiles)"
  shows "collect allFiles = []"
proof -
  have "trim l = []" if "l \<in> set (inputLines allFiles)" for l
    using assms that by (intro trim_blank) (simp add: list_all_iff)
  then have "set (collect allFiles) = {}"
    by (auto simp: set_collect)
  then show ?thesis
    by simp
qed

text \<open>
  C7 (dedup). The collected set holds exactly the distinct trimmed non-empty lines of
  the blobs read; its size is their number; the empty string is never a member; and two
  directories whose blobs hold the same multiset of lines, however distributed, give the
  same set. Trimmed means: a member has no white space at either end and is what is left
  of some line after white space is taken off both ends; conversely what is left of a line
  in that way, when it is not empty, is a member. Lines of white space only add nothing.
\<close>

theorem collect_distinct_trimmed_lines:
  "set (collect allFiles) = set (filter (\<lambda>ip. ip \<noteq> []) (map trim (inputLines allFiles))) \<and>
   distinct (collect allFiles) \<and>
   length (collect allFiles)
     = card (set (filter (\<lambda>ip. ip \<noteq> []) (map trim (inputLines allFiles)))) \<and>
   [] \<notin> set (collect allFiles) \<and>
   (\<forall>others. mset (inputLines others) = mset (inputLines allFiles) \<longrightarrow>
      set (collect others) = set (collect allFiles) \<and>
      length (collect others) = length (collect allFiles)) \<and>
   (\<forall>ip. ip \<in> set (collect allFiles) \<longrightarrow>
      \<not> isWhiteSpace (hd ip) \<and> \<not> isWhiteSpace (last ip) \<and>
      (\<exists>l pre post. l \<in> set (inputLines allFiles) \<and> l = pre @ ip @ post \<and>
         list_all isWhiteSpace pre \<and> list_all isWhiteSpace post)) \<and>
   (\<forall>pre t post.
      pre @ t @ post \<in> set (inputLines allFiles) \<and>
      list_all isWhiteSpace pre \<and> list_all isWhiteSpace post \<and>
      t \<noteq> [] \<and> \<not> isWhiteSpace (hd t) \<and> \<not> isWhiteSpace (last t) \<longrightarrow>
      t \<in> set (collect allFiles)) \<and>
   (list_all (list_all isWhiteSpace) (inputLines allFiles) \<longrightarrow> collect allFiles = [])"
proof -
  have size: "length (collect fs) = card (set (collect fs))" for fs
    using distinct_collect [of fs] by (simp add: distinct_card)
  have same: "set (collect others) = set (collect allFiles)"
    if "mset (inputLines others) = mset (inputLines allFiles)" for others
  proof -
    from that have "set (inputLines others) = set (inputLines allFiles)"
      by (rule mset_eq_setD)
    then show ?thesis
      by (auto simp: set_collect)
  qed
  have c1: "set (collect allFiles)
            = set (filter (\<lambda>ip. ip \<noteq> []) (map trim (inputLines allFiles)))"
    by (rule set_collect)
  have c2: "distinct (collect allFiles)"
    by (rule distinct_collect)
  have c3: "length (collect allFiles)
            = card (set (filter (\<lambda>ip. ip \<noteq> []) (map trim (inputLines allFiles))))"
    using size [of allFiles] by (simp only: c1)
  have c4: "[] \<notin> set (collect allFiles)"
    by (simp add: set_collect)
  have c5: "\<forall>others. mset (inputLines others) = mset (inputLines allFiles) \<longrightarrow>
      set (collect others) = set (collect allFiles) \<and>
      length (collect others) = length (collect allFiles)"
    using same size by metis
  have c6: "\<forall>ip. ip \<in> set (collect allFiles) \<longrightarrow>
      \<not> isWhiteSpace (hd ip) \<and> \<not> isWhiteSpace (last ip) \<and>
      (\<exists>l pre post. l \<in> set (inputLines allFiles) \<and> l = pre @ ip @ post \<and>
         list_all isWhiteSpace pre \<and> list_all isWhiteSpace post)"
    using collect_member by blast
  have c7: "\<forall>pre t post.
      pre @ t @ post \<in> set (inputLines allFiles) \<and>
      list_all isWhiteSpace pre \<and> list_all isWhiteSpace post \<and>
      t \<noteq> [] \<and> \<not> isWhiteSpace (hd t) \<and> \<not> isWhiteSpace (last t) \<longrightarrow>
      t \<in> set (collect allFiles)"
    using collect_core by blast
  have c8: "list_all (list_all isWhiteSpace) (inputLines allFiles) \<longrightarrow> collect allFiles = []"
    using collect_blank by blast
  show ?thesis
    by (intro conjI c1 c2 c3 c4 c5 c6 c7 c8)
qed

theorem collect_distinct_trimmed_lines_witness:
  "inputLines paddedFiles
     = ['' 1.2.3.4 '', [], ''8.8.8.8'', [CHR 0x20, CHR 0x09, CHR 0x20], ''1.2.3.4'', [],
        [CHR 0x09] @ ''104.16.0.1''] \<and>
   collect paddedFiles = [''1.2.3.4'', ''8.8.8.8'', ''104.16.0.1''] \<and>
   length (collect paddedFiles)
     = card (set (filter (\<lambda>ip. ip \<noteq> []) (map trim (inputLines paddedFiles)))) \<and>
   mset (inputLines regroupedFiles) = mset (inputLines paddedFiles) \<and>
   collect regroupedFiles = [''104.16.0.1'', ''1.2.3.4'', ''8.8.8.8''] \<and>
   set (collect regroupedFiles) = set (collect paddedFiles) \<and>
   length (collect regroupedFiles) = length (collect paddedFiles) \<and>
   [CHR 0x09] @ ''104.16.0.1'' @ [] \<in> set (inputLines paddedFiles) \<and>
   list_all isWhiteSpace [CHR 0x09] \<and>
   ''104.16.0.1'' \<in> set (collect paddedFiles) \<and>
   inputLines blankFiles = ['' '', [CHR 0x09, CHR 0xA0], []] \<and>
   list_all (list_all isWhiteSpace) (inputLines blankFiles) \<and>
   collect blankFiles = []"
proof -
  have l1: "inputLines paddedFiles
     = ['' 1.2.3.4 '', [], ''8.8.8.8'', [CHR 0x20, CHR 0x09, CHR 0x20], ''1.2.3.4'', [],
        [CHR 0x09] @ ''104.16.0.1'']"
    by code_simp
  have v1: "collect paddedFiles = [''1.2.3.4'', ''8.8.8.8'', ''104.16.0.1'']"
    by code_simp
  have v2: "collect regroupedFiles = [''104.16.0.1'', ''1.2.3.4'', ''8.8.8.8'']"
    by code_simp
  have h1: "mset (inputLines regroupedFiles) = mset (inputLines paddedFiles)"
    by code_simp
  have h2: "[CHR 0x09] @ ''104.16.0.1'' @ [] \<in> set (inputLines paddedFiles)"
    unfolding l1 by simp
  have h3: "list_all isWhiteSpace [CHR 0x09] \<and> list_all isWhiteSpace [] \<and> ''104.16.0.1'' \<noteq> [] \<and>
            \<not> isWhiteSpace (hd ''104.16.0.1'') \<and> \<not> isWhiteSpace (last ''104.16.0.1'')"
    by code_simp
  have l3: "inputLines blankFiles = ['' '', [CHR 0x09, CHR 0xA0], []]"
    by code_simp
  have h4: "list_all (list_all isWhiteSpace) (inputLines blankFiles)"
    by code_simp
  note p = collect_distinct_trimmed_lines [of paddedFiles]
  note b = collect_distinct_trimmed_lines [of blankFiles]
  have a3: "length (collect paddedFiles)
     = card (set (filter (\<lambda>ip. ip \<noteq> []) (map trim (inputLines paddedFiles))))"
    using p by blast
  have a5: "set (collect regroupedFiles) = set (collect paddedFiles) \<and>
            length (collect regroupedFiles) = length (collect paddedFiles)"
    using p h1 by blast
  have a7: "''104.16.0.1'' \<in> set (collect paddedFiles)"
    using p h2 h3 by blast
  have a8: "collect blankFiles = []"
    using b h4 by blast
  show ?thesis
    using l1 v1 v2 h1 h2 h3 l3 h4 a3 a5 a7 a8 by blast
qed

section \<open>Properties of the shuffle\<close>

lemma swap_perm:
  "i < length a \<Longrightarrow> j < length a \<Longrightarrow> mset (swap i j a) = mset a \<and> length (swap i j a) = length a"
  by (simp add: swap_def mset_swap)

lemma shuffleFrom_perm:
  "i < length a \<Longrightarrow> (\<forall>k. draw k \<le> k) \<Longrightarrow>
   mset (shuffleFrom draw i a) = mset a \<and> length (shuffleFrom draw i a) = length a"
proof (induction i arbitrary: a)
  case 0
  then show ?case by simp
next
  case (Suc i)
  have j: "draw (Suc i) < length a"
    using Suc.prems by (meson le_less_trans)
  have s: "mset (swap (Suc i) (draw (Suc i)) a) = mset a"
    "length (swap (Suc i) (draw (Suc i)) a) = length a"
    using swap_perm [OF Suc.prems(1) j] by simp_all
  have "i < length (swap (Suc i) (draw (Suc i)) a)"
    using Suc.prems(1) s(2) by simp
  from Suc.IH [OF this Suc.prems(2)] s show ?case by simp
qed

text \<open>
  C8 (permutation). Whatever indices are drawn, each within \<open>[0, i]\<close>, the shuffled
  array has the same elements with the same multiplicities as the input, and the same
  length.
\<close>

theorem shuffle_permutation:
  assumes "\<forall>i. draw i \<le> i"
  shows "mset (shuffle draw a) = mset a \<and> length (shuffle draw a) = length a"
proof (cases a)
  case Nil
  then show ?thesis by (simp add: shuffle_def)
next
  case (Cons x xs)
  then have "length a - 1 < length a" by simp
  from shuffleFrom_perm [OF this assms] show ?thesis
    by (simp add: shuffle_def)
qed

theorem shuffle_permutation_witness:
  "(\<forall>i::nat. (\<lambda>i. i div 2) i \<le> i) \<and>
   shuffle (\<lambda>i. i div 2) [''a'', ''b'', ''c'', ''d''] = [''c'', ''a'', ''d'', ''b''] \<and>
   mset (shuffle (\<lambda>i. i div 2) [''a'', ''b'', ''c'', ''d'']) = mset [''a'', ''b'', ''c'', ''d''] \<and>
   length (shuffle (\<lambda>i. i div 2) [''a'', ''b'', ''c'', ''d'']) = length [''a'', ''b'', ''c'', ''d'']"
proof -
  have h: "\<forall>i::nat. (\<lambda>i. i div 2) i \<le> i"
    by simp
  have v: "shuffle (\<lambda>i. i div 2) [''a'', ''b'', ''c'', ''d''] = [''c'', ''a'', ''d'', ''b'']"
    by code_simp
  show ?thesis
    using h v shuffle_permutation [OF h, of "[''a'', ''b'', ''c'', ''d'']"] by blast
qed

section \<open>Properties of the run\<close>

lemma upload_config_missing:
  "configMissing w \<Longrightarrow> uploadToGitHub w fileText repoPath ipCount = ([], 1)"
  by (auto simp: uploadToGitHub_def configMissing_def Let_def)

lemma upload_config_present:
  "\<not> configMissing w \<Longrightarrow>
   uploadToGitHub w fileText repoPath ipCount =
     ([HttpGet (apiUrl (toString (GITHUB_REPOSITORY w)) repoPath),
       HttpPut (apiUrl (toString (GITHUB_REPOSITORY w)) repoPath)
         (buildPayload (commitMessage repoPath (currentTime w) ipCount) fileText
            (existingFileSha (shaLookup w)))],
      if putOk w then 0 else 1)"
  by (auto simp: uploadToGitHub_def configMissing_def Let_def)

text \<open>
  C2 as stated (no network request at all when the configuration is missing) fails:
  the variables are read only inside \<open>uploadToGitHub\<close>, the last step of \<open>main\<close>, so the
  archive download has already been requested.
\<close>

theorem config_checked_after_download:
  "configMissing (sampleWorld\<lparr>GITHUB_TOKEN := Undefined\<rparr>) \<and>
   main (sampleWorld\<lparr>GITHUB_TOKEN := Undefined\<rparr>) = ([HttpGet downloadUrl], 1) \<and>
   \<not> (configMissing (sampleWorld\<lparr>GITHUB_TOKEN := Undefined\<rparr>) \<longrightarrow>
        snd (main (sampleWorld\<lparr>GITHUB_TOKEN := Undefined\<rparr>)) \<noteq> 0 \<and>
        fst (main (sampleWorld\<lparr>GITHUB_TOKEN := Undefined\<rparr>)) = [])"
proof -
  have c: "configMissing (sampleWorld\<lparr>GITHUB_TOKEN := Undefined\<rparr>)"
    by (simp add: configMissing_def)
  have "downloadOk (sampleWorld\<lparr>GITHUB_TOKEN := Undefined\<rparr>)"
    "extractOk (sampleWorld\<lparr>GITHUB_TOKEN := Undefined\<rparr>)"
    "writeOk (sampleWorld\<lparr>GITHUB_TOKEN := Undefined\<rparr>)"
    by (simp_all add: sampleWorld_def)
  then have "main (sampleWorld\<lparr>GITHUB_TOKEN := Undefined\<rparr>) = ([HttpGet downloadUrl], 1)"
    by (simp add: main_def Let_def upload_config_missing [OF c])
  with c show ?thesis by simp
qed

text \<open>
  C2 (amended). When \<open>GITHUB_TOKEN\<close> or \<open>GITHUB_REPOSITORY\<close> is absent or empty, the run
  ends with exit code 1 and the only network request it has issued is the archive
  download: neither the revision lookup nor the write is sent.
\<close>

theorem config_missing_no_store_request:
  assumes "configMissing w"
  shows "main w = ([HttpGet downloadUrl], 1)"
  by (simp add: main_def Let_def upload_config_missing [OF assms])

theorem config_missing_no_store_request_witness:
  "configMissing (sampleWorld\<lparr>GITHUB_REPOSITORY := Str []\<rparr>) \<and>
   main (sampleWorld\<lparr>GITHUB_REPOSITORY := Str []\<rparr>) = ([HttpGet downloadUrl], 1)"
proof -
  have c: "configMissing (sampleWorld\<lparr>GITHUB_REPOSITORY := Str []\<rparr>)"
    by (simp add: configMissing_def)
  show ?thesis
    using c config_missing_no_store_request [OF c] by simp
qed

text \<open>
  C5 (token discipline). With the configuration present, the publish step sends the
  lookup and then one write. When the lookup resolves with revision token \<open>T\<close> (a
  non-empty string: the code keeps the empty string for "no token"), the body of the
  write has \<open>sha = T\<close>; when the lookup is rejected with status 404, the body has no \<open>sha\<close>
  field.
\<close>

theorem publish_token_discipline:
  assumes "\<not> configMissing w"
  shows "\<exists>url body.
           fst (uploadToGitHub w fileText repoPath ipCount) = [HttpGet url, HttpPut url body] \<and>
           (\<forall>T. shaLookup w = Resolved (Str T) \<and> T \<noteq> [] \<longrightarrow> sha body = Some (Str T)) \<and>
           (shaLookup w = Rejected (Some 404) \<longrightarrow> sha body = None)"
  by (simp add: upload_config_present [OF assms] buildPayload_def existingFileSha_def)

theorem publish_token_discipline_witness:
  "\<not> configMissing (sampleWorld\<lparr>shaLookup := Resolved (Str ''95b966ae1c166bd92f8ae7d1c313e738c731dfc3'')\<rparr>) \<and>
   \<not> configMissing sampleWorld \<and> shaLookup sampleWorld = Rejected (Some 404) \<and>
   (\<exists>url body.
      fst (uploadToGitHub
             (sampleWorld\<lparr>shaLookup := Resolved (Str ''95b966ae1c166bd92f8ae7d1c313e738c731dfc3'')\<rparr>)
             ''8.8.8.8'' ''BestProxy/bestproxy.txt'' 1)
        = [HttpGet url, HttpPut url body] \<and>
      sha body = Some (Str ''95b966ae1c166bd92f8ae7d1c313e738c731dfc3'')) \<and>
   (\<exists>url body.
      fst (uploadToGitHub sampleWorld ''8.8.8.8'' ''BestProxy/bestproxy.txt'' 1)
        = [HttpGet url, HttpPut url body] \<and>
      sha body = None)"
proof -
  let ?w = "sampleWorld\<lparr>shaLookup := Resolved (Str ''95b966ae1c166bd92f8ae7d1c313e738c731dfc3'')\<rparr>"
  have c1: "\<not> configMissing ?w"
    by (simp add: configMissing_def sampleWorld_def)
  have c2: "\<not> configMissing sampleWorld"
    by (simp add: configMissing_def sampleWorld_def)
  have l1: "shaLookup ?w = Resolved (Str ''95b966ae1c166bd92f8ae7d1c313e738c731dfc3'')"
    by simp
  have l2: "shaLookup sampleWorld = Rejected (Some 404)"
    by (simp add: sampleWorld_def)
  have n: "''95b966ae1c166bd92f8ae7d1c313e738c731dfc3'' \<noteq> []"
    by simp
  from publish_token_discipline [OF c1, of "''8.8.8.8''" "''BestProxy/bestproxy.txt''" 1] l1 n
  have e1: "\<exists>url body.
      fst (uploadToGitHub ?w ''8.8.8.8'' ''BestProxy/bestproxy.txt'' 1)
        = [HttpGet url, HttpPut url body] \<and>
      sha body = Some (Str ''95b966ae1c166bd92f8ae7d1c313e738c731dfc3'')"
    by blast
  from publish_token_discipline [OF c2, of "''8.8.8.8''" "''BestProxy/bestproxy.txt''" 1] l2
  have e2: "\<exists>url body.
      fst (uploadToGitHub sampleWorld ''8.8.8.8'' ''BestProxy/bestproxy.txt'' 1)
        = [HttpGet url, HttpPut url body] \<and>
      sha body = None"
    by blast
  show ?thesis
    using c1 c2 l2 e1 e2 by blast
qed

end
